theory Spec2Isabelle
  imports Main "HOL-Library.Product_Lexorder" "HOL-Library.AList"
begin

section \<open>The CherryTree-to-org converter (t.py)\<close>

text \<open>
  The embedding follows \<^verbatim>\<open>src/2019-12-22-cherrytree-to-org/t.py\<close>. Python strings are
  lists of characters; a \<^typ>\<open>char\<close> is an 8-bit code point, so the model covers the
  strings whose code points are below 256. Exceptions are values of \<open>error\<close>, and a
  function that may raise returns \<open>error + 'a\<close>.
\<close>

datatype error =
  TypeError | ValueError | OverflowError | OSError | RuntimeError | AssertionError | KeyError

subsection \<open>The input tree and the flattened nodes\<close>

text \<open>
  An \<^verbatim>\<open>etree.Element\<close>: its tag, its attributes, its text (\<open>None\<close> when it has none)
  and its children in document order.
\<close>

datatype element =
  Element (tag: string) (attrib: "(string \<times> string) list") (etext: "string option")
    (subelements: "element list")

text \<open>
  \<^verbatim>\<open>Element.get(key)\<close> is \<open>map_of\<close> on the attributes: the attribute's value, \<open>None\<close>
  when it is absent.
\<close>

text \<open>
  The dataclass \<^verbatim>\<open>Node\<close> (lines 61-67). The name is what \<^verbatim>\<open>node.get("name")\<close>
  returned, so it may be \<open>None\<close>. The type \<open>'t\<close> stands for \<^verbatim>\<open>datetime\<close>, of which
  the program uses the order only.
\<close>

record 't node =
  name :: "string option"
  header :: string
  "text" :: string
  created :: 't
  modified :: 't

text \<open>
  \<^verbatim>\<open>parse_date\<close> (lines 75-80). The argument comes from \<^verbatim>\<open>Element.get\<close>, so it is a
  string or \<open>None\<close> and the \<^verbatim>\<open>isinstance(timestamp, (int, float))\<close> test is false:
  \<^verbatim>\<open>float(timestamp)\<close> always runs. The builtin \<^verbatim>\<open>float\<close> on a string is the
  parameter \<open>to_float\<close> (\<open>None\<close> where it raises ValueError); on \<open>None\<close> it raises
  TypeError. A float is falsy exactly when it equals zero. \<^verbatim>\<open>datetime.fromtimestamp\<close>
  is the parameter \<open>fromtimestamp\<close>, which may raise as well.
\<close>

definition parse_date ::
  "(string \<Rightarrow> 'f::zero option) \<Rightarrow> ('f \<Rightarrow> error + 't) \<Rightarrow> string option \<Rightarrow> error + 't option"
where
  "parse_date to_float fromtimestamp timestamp =
     (case timestamp of
        None \<Rightarrow> Inl TypeError
      | Some s \<Rightarrow>
          (case to_float s of
             None \<Rightarrow> Inl ValueError
           | Some x \<Rightarrow>
               if x = 0 then Inr None
               else (case fromtimestamp x of Inl e \<Rightarrow> Inl e | Inr d \<Rightarrow> Inr (Some d))))"

text \<open>\<^verbatim>\<open>a or b\<close> where \<open>a\<close> is \<open>None\<close> or a datetime (a datetime is always truthy).\<close>

definition or_default :: "'t option \<Rightarrow> 't \<Rightarrow> 't" where
  "or_default a d = (case a of None \<Rightarrow> d | Some x \<Rightarrow> x)"

text \<open>
  \<^verbatim>\<open>asterisk_re.sub(r"\\ast{}", s)\<close> with \<^verbatim>\<open>asterisk_re = re.compile(r"^\*", re.M)\<close>:
  an asterisk at the start of the string or right after a line feed becomes the six
  characters \<^verbatim>\<open>\ast{}\<close>. The flag says whether the position is the start of a line.
\<close>

fun asterisk_sub :: "bool \<Rightarrow> string \<Rightarrow> string" where
  "asterisk_sub bol [] = []"
| "asterisk_sub bol (c # cs) =
     (if bol \<and> c = CHR ''*''
      then [CHR 0x5C, CHR ''a'', CHR ''s'', CHR ''t'', CHR ''{'', CHR ''}''] @ asterisk_sub False cs
      else c # asterisk_sub (c = CHR 0x0A) cs)"

text \<open>\<^verbatim>\<open>str.isspace\<close> on one code point below 256, and \<^verbatim>\<open>str.rstrip()\<close>.\<close>

definition isspace :: "char \<Rightarrow> bool" where
  "isspace c \<longleftrightarrow>
     c \<in> set [CHR 0x09, CHR 0x0A, CHR 0x0B, CHR 0x0C, CHR 0x0D, CHR 0x1C, CHR 0x1D,
               CHR 0x1E, CHR 0x1F, CHR 0x20, CHR 0x85, CHR 0xA0]"

definition rstrip :: "string \<Rightarrow> string" where
  "rstrip s = rev (dropWhile isspace (rev s))"

text \<open>
  Lines 92-100: the loop over \<^verbatim>\<open>node.iterchildren("rich_text")\<close> and the join. A child
  whose text is \<open>None\<close> or empty is skipped; every other one adds its escaped, right-stripped
  text and a line feed.
\<close>

fun rich_text :: "element list \<Rightarrow> string" where
  "rich_text [] = []"
| "rich_text (child # rest) =
     (if tag child = ''rich_text''
      then (case etext child of
              None \<Rightarrow> rich_text rest
            | Some s \<Rightarrow>
                if s = [] then rich_text rest
                else rstrip (asterisk_sub True s) @ [CHR 0x0A] @ rich_text rest)
      else rich_text rest)"

text \<open>The f-string of line 86; \<^verbatim>\<open>None\<close> is formatted as the word None.\<close>

definition make_header :: "nat \<Rightarrow> string option \<Rightarrow> string" where
  "make_header level nm =
     replicate level (CHR ''*'') @ '' '' @ (case nm of None \<Rightarrow> ''None'' | Some s \<Rightarrow> s) @ [CHR 0x0A]"

text \<open>
  \<^verbatim>\<open>render_node\<close> (lines 82-105). The generator is drained by \<^verbatim>\<open>list(...)\<close> at line
  124, so an exception anywhere in the traversal is the result of the whole call.
  \<open>render_children\<close> is the loop of lines 104-105 over the children tagged \<^verbatim>\<open>node\<close>.
\<close>

fun render_node ::
  "(string \<Rightarrow> 'f::zero option) \<Rightarrow> ('f \<Rightarrow> error + 't) \<Rightarrow> element \<Rightarrow> nat \<Rightarrow> 't \<Rightarrow> 't
     \<Rightarrow> error + 't node list"
and render_children ::
  "(string \<Rightarrow> 'f::zero option) \<Rightarrow> ('f \<Rightarrow> error + 't) \<Rightarrow> element list \<Rightarrow> nat \<Rightarrow> 't \<Rightarrow> 't
     \<Rightarrow> error + 't node list"
where
  "render_node to_float fromtimestamp (Element tg at tx ks) level default_created default_modified =
     (case parse_date to_float fromtimestamp (map_of at ''ts_creation'') of
        Inl e \<Rightarrow> Inl e
      | Inr c \<Rightarrow>
          (case parse_date to_float fromtimestamp (map_of at ''ts_lastsave'') of
             Inl e \<Rightarrow> Inl e
           | Inr m \<Rightarrow>
               (case render_children to_float fromtimestamp ks (level + 1)
                       (or_default c default_created) (or_default m default_modified) of
                  Inl e \<Rightarrow> Inl e
                | Inr below \<Rightarrow>
                    Inr (\<lparr>name = map_of at ''name'',
                          header = make_header level (map_of at ''name''),
                          text = rich_text ks,
                          created = or_default c default_created,
                          modified = or_default m default_modified\<rparr> # below))))"
| "render_children to_float fromtimestamp [] level default_created default_modified = Inr []"
| "render_children to_float fromtimestamp (child # rest) level default_created default_modified =
     (if tag child = ''node''
      then (case render_node to_float fromtimestamp child level default_created default_modified of
              Inl e \<Rightarrow> Inl e
            | Inr ns \<Rightarrow>
                (case render_children to_float fromtimestamp rest level default_created
                        default_modified of
                   Inl e \<Rightarrow> Inl e
                 | Inr ms \<Rightarrow> Inr (ns @ ms)))
      else render_children to_float fromtimestamp rest level default_created default_modified)"

text \<open>
  \<^verbatim>\<open>render_nodes\<close> (lines 107-110): every child of the root, whatever its tag, is rendered
  at level 1 with \<^verbatim>\<open>datetime.now()\<close>, the parameter \<open>now\<close>, as both defaults.
\<close>

fun render_nodes ::
  "(string \<Rightarrow> 'f::zero option) \<Rightarrow> ('f \<Rightarrow> error + 't) \<Rightarrow> 't \<Rightarrow> element list \<Rightarrow> error + 't node list"
where
  "render_nodes to_float fromtimestamp now [] = Inr []"
| "render_nodes to_float fromtimestamp now (child # rest) =
     (case render_node to_float fromtimestamp child 1 now now of
        Inl e \<Rightarrow> Inl e
      | Inr ns \<Rightarrow>
          (case render_nodes to_float fromtimestamp now rest of
             Inl e \<Rightarrow> Inl e
           | Inr ms \<Rightarrow> Inr (ns @ ms)))"

definition parse_nodes ::
  "(string \<Rightarrow> 'f::zero option) \<Rightarrow> ('f \<Rightarrow> error + 't) \<Rightarrow> 't \<Rightarrow> element \<Rightarrow> error + 't node list"
where
  "parse_nodes to_float fromtimestamp now root =
     render_nodes to_float fromtimestamp now (subelements root)"

subsection \<open>The timeline\<close>

text \<open>
  The list \<^verbatim>\<open>times\<close> of lines 127-131: two events per node, sorted as Python sorts
  tuples, by time and then by node index.
\<close>

definition times_of :: "('t::linorder) node list \<Rightarrow> ('t \<times> nat) list" where
  "times_of nodes =
     sort (concat (map (\<lambda>(i, n). [(created n, i), (modified n, i)]) (enumerate 0 nodes)))"

text \<open>
  A \<^verbatim>\<open>Counter\<close> is a dictionary: an association list with distinct keys in insertion
  order. Reading a missing key gives 0 and does not insert it; \<^verbatim>\<open>seen[k] += 1\<close> stores
  the count read plus one.
\<close>

type_synonym counter = "(nat \<times> nat) list"

definition counter_get :: "counter \<Rightarrow> nat \<Rightarrow> nat" where
  "counter_get seen k = (case map_of seen k of None \<Rightarrow> 0 | Some v \<Rightarrow> v)"

definition counter_incr :: "counter \<Rightarrow> nat \<Rightarrow> counter" where
  "counter_incr seen k = AList.update k (counter_get seen k + 1) seen"

text \<open>
  \<^verbatim>\<open>document\<close> (lines 134-142): the lines of the document for one state of the counter.
  \<^verbatim>\<open>sorted(seen.items())\<close> sorts the (key, count) pairs. A zero count fails the
  assertion, a key that is no node index raises KeyError at \<^verbatim>\<open>nodes_by_index[node_id]\<close>;
  the consumer joins the lines, so an exception is the result of the whole rendering.
\<close>

fun document_loop :: "'t node list \<Rightarrow> (nat \<times> nat) list \<Rightarrow> error + string list" where
  "document_loop nodes [] = Inr []"
| "document_loop nodes ((node_id, times_seen) # rest) =
     (if times_seen = 0 then Inl AssertionError
      else if \<not> node_id < length nodes then Inl KeyError
      else (case document_loop nodes rest of
              Inl e \<Rightarrow> Inl e
            | Inr ls \<Rightarrow>
                Inr (header (nodes ! node_id)
                     # (if times_seen = 2 \<and> text (nodes ! node_id) \<noteq> []
                        then [text (nodes ! node_id)] else [])
                     @ ls)))"

definition document :: "'t node list \<Rightarrow> counter \<Rightarrow> error + string list" where
  "document nodes seen = document_loop nodes (sort seen)"

text \<open>
  \<^verbatim>\<open>no_consecutive_duplicates\<close> (lines 144-155). \<open>scan\<close> is the loop of lines 150-155
  with its three variables: it runs over the whole list \<^verbatim>\<open>times\<close>, increments the
  counter first and yields afterwards, and moves \<^verbatim>\<open>last_t, last_id\<close> at every event.
  Each yielded triple refers to the one shared counter; the third component here is the
  state of that counter at the moment of the yield, which is what a consumer sees that
  renders an entry before asking for the next one (as line 170 does). Line 147 raises
  StopIteration on an empty list, which a generator turns into RuntimeError.
\<close>

fun scan :: "'t \<Rightarrow> nat \<Rightarrow> counter \<Rightarrow> ('t \<times> nat) list \<Rightarrow> ('t \<times> nat \<times> counter) list" where
  "scan last_t last_id seen [] = [(last_t, last_id, seen)]"
| "scan last_t last_id seen ((t, node_id) # rest) =
     (if node_id \<noteq> last_id then [(last_t, last_id, counter_incr seen node_id)] else [])
     @ scan t node_id (counter_incr seen node_id) rest"

definition no_consecutive_duplicates ::
  "('t \<times> nat) list \<Rightarrow> error + ('t \<times> nat \<times> counter) list"
where
  "no_consecutive_duplicates ts =
     (case ts of
        [] \<Rightarrow> Inl RuntimeError
      | (t0, id0) # _ \<Rightarrow> Inr (scan t0 id0 (counter_incr [] id0) ts))"

text \<open>
  The dataclass \<^verbatim>\<open>Entry\<close> (lines 115-120). Its \<^verbatim>\<open>text\<close> is the lazy
  \<^verbatim>\<open>document(counts)\<close>; the field \<open>rendered\<close> is what joining it gives when the entry
  is consumed as soon as it is yielded, and \<open>counts\<close> is the counter state it was
  rendered from.
\<close>

record 't entry =
  time :: 't
  node :: "'t node"
  description :: string
  counts :: counter
  rendered :: "error + string"

definition join :: "error + string list \<Rightarrow> error + string" where
  "join r = (case r of Inl e \<Rightarrow> Inl e | Inr ls \<Rightarrow> Inr (concat ls))"

text \<open>Lines 157-164 for one triple; \<^verbatim>\<open>nodes_by_index[node_id]\<close> may raise KeyError.\<close>

definition make_entry :: "'t node list \<Rightarrow> 't \<times> nat \<times> counter \<Rightarrow> error + 't entry" where
  "make_entry nodes tr =
     (case tr of (t, node_id, cnts) \<Rightarrow>
        if \<not> node_id < length nodes then Inl KeyError
        else Inr \<lparr>time = t, node = nodes ! node_id,
                  description = (if counter_get cnts node_id = 2 then [] else ''section: ''),
                  counts = cnts,
                  rendered = join (document nodes cnts)\<rparr>)"

fun make_entries :: "'t node list \<Rightarrow> ('t \<times> nat \<times> counter) list \<Rightarrow> error + 't entry list" where
  "make_entries nodes [] = Inr []"
| "make_entries nodes (tr # rest) =
     (case make_entry nodes tr of
        Inl e \<Rightarrow> Inl e
      | Inr en \<Rightarrow> (case make_entries nodes rest of Inl e \<Rightarrow> Inl e | Inr es \<Rightarrow> Inr (en # es)))"

text \<open>The part of \<^verbatim>\<open>get_documents_by_time\<close> after the nodes are listed (lines 127-164).\<close>

definition documents_of_nodes :: "('t::linorder) node list \<Rightarrow> error + 't entry list" where
  "documents_of_nodes nodes =
     (case no_consecutive_duplicates (times_of nodes) of
        Inl e \<Rightarrow> Inl e
      | Inr triples \<Rightarrow> make_entries nodes triples)"

definition get_documents_by_time ::
  "(string \<Rightarrow> 'f::zero option) \<Rightarrow> ('f \<Rightarrow> error + 't::linorder) \<Rightarrow> 't \<Rightarrow> element
     \<Rightarrow> error + 't entry list"
where
  "get_documents_by_time to_float fromtimestamp now root =
     (case parse_nodes to_float fromtimestamp now root of
        Inl e \<Rightarrow> Inl e
      | Inr nodes \<Rightarrow> documents_of_nodes nodes)"

subsection \<open>Runs of events\<close>

text \<open>
  The maximal runs of consecutive events with the same node index, in order: the notion
  the specification uses for a timeline point. It is not part of the program.
\<close>

fun runs :: "('t \<times> nat) list \<Rightarrow> ('t \<times> nat) list list" where
  "runs [] = []"
| "runs (e # es) =
     (case runs es of
        [] \<Rightarrow> [[e]]
      | r # rs \<Rightarrow> if snd e = snd (hd r) then (e # r) # rs else [e] # r # rs)"

text \<open>
  A triple closes a run when it carries the time and the node index of the run's last
  event and counts, for that node, at least the events of the run.
\<close>

definition closes :: "'t \<times> nat \<times> counter \<Rightarrow> ('t \<times> nat) list \<Rightarrow> bool" where
  "closes tr r \<longleftrightarrow>
     fst tr = fst (last r) \<and> fst (snd tr) = snd (last r)
     \<and> length r \<le> counter_get (snd (snd tr)) (snd (last r))"

text \<open>A counter all of whose stored counts are nonzero.\<close>

definition positive :: "counter \<Rightarrow> bool" where
  "positive seen \<longleftrightarrow> (\<forall>kv \<in> set seen. 0 < snd kv)"

subsection \<open>Timestamps along a path\<close>







subsection \<open>Concrete inputs\<close>

text \<open>
  An instance of \<open>to_float\<close> for the concrete inputs below: it agrees with \<^verbatim>\<open>float\<close> on
  the non-empty strings of ASCII digits and on the strings without any digit that are used
  here. Times are then whole seconds, and \<open>Inr\<close> stands for \<^verbatim>\<open>datetime.fromtimestamp\<close>.
\<close>

fun digits_value :: "int \<Rightarrow> string \<Rightarrow> int option" where
  "digits_value acc [] = Some acc"
| "digits_value acc (c # cs) =
     (if c \<in> set ''0123456789''
      then digits_value (10 * acc + (int (of_char c) - 48)) cs
      else None)"

definition float_of_digits :: "string \<Rightarrow> int option" where
  "float_of_digits s = (if s = [] then None else digits_value 0 s)"

text \<open>
  A \<^verbatim>\<open>node\<close> element with a name, both timestamp attributes and one \<^verbatim>\<open>rich_text\<close>
  child, and a root with the given children.
\<close>

definition note_element :: "string \<Rightarrow> string \<Rightarrow> string \<Rightarrow> string \<Rightarrow> element" where
  "note_element nm c m tx =
     Element ''node'' [(''name'', nm), (''ts_creation'', c), (''ts_lastsave'', m)] None
       [Element ''rich_text'' [] (Some tx) []]"

text \<open>A \<^verbatim>\<open>node\<close> element with a name, both timestamp attributes and the given children.\<close>

definition stamped :: "string \<Rightarrow> string \<Rightarrow> string \<Rightarrow> element list \<Rightarrow> element" where
  "stamped nm c m ks =
     Element ''node'' [(''name'', nm), (''ts_creation'', c), (''ts_lastsave'', m)] None ks"

definition cherrytree :: "element list \<Rightarrow> element" where
  "cherrytree ks = Element ''cherrytree'' [] None ks"

text \<open>
  The flattened node a top-level \<open>note_element\<close> gives when both timestamps are nonzero
  and the text is not empty and needs no escaping or stripping (lemma \<open>parse_two_notes\<close>).
\<close>

definition flat :: "string \<Rightarrow> 't \<Rightarrow> 't \<Rightarrow> string \<Rightarrow> 't node" where
  "flat nm c m tx =
     \<lparr>name = Some nm, header = CHR ''*'' # CHR '' '' # nm @ [CHR 0x0A], text = tx @ [CHR 0x0A],
      created = c, modified = m\<rparr>"

lemmas flatten_defs = parse_nodes_def cherrytree_def note_element_def stamped_def flat_def
  float_of_digits_def
  parse_date_def or_default_def make_header_def rstrip_def isspace_def

lemmas timeline_defs = documents_of_nodes_def times_of_def no_consecutive_duplicates_def
  counter_incr_def counter_get_def make_entry_def document_def join_def

section \<open>Properties of the counter\<close>

lemma counter_get_incr:
  "counter_get (counter_incr seen k) j =
     (if j = k then counter_get seen k + 1 else counter_get seen j)"
  by (simp add: counter_get_def counter_incr_def update_conv')


lemma set_update_subset: "set (AList.update k v al) \<subseteq> insert (k, v) (set al)"
  by (induction al) auto

lemma positive_Nil: "positive []"
  by (simp add: positive_def)

lemma positive_incr: "positive seen \<Longrightarrow> positive (counter_incr seen k)"
  unfolding positive_def counter_incr_def
  using set_update_subset [of k "counter_get seen k + 1" seen] by auto

section \<open>Properties of the scan\<close>


lemma scan_positive:
  "positive seen \<Longrightarrow> tr \<in> set (scan lt lid seen ts) \<Longrightarrow> positive (snd (snd tr))"
proof (induction ts arbitrary: lt lid seen)
  case Nil
  then show ?case by simp
next
  case (Cons e ts)
  obtain t i where e: "e = (t, i)" by (cases e)
  from Cons.prems(2) e
  consider "tr = (lt, lid, counter_incr seen i)"
    | "tr \<in> set (scan t i (counter_incr seen i) ts)"
    by (auto split: if_splits)
  then show ?case
  proof cases
    case 1
    then show ?thesis using Cons.prems(1) by (simp add: positive_incr)
  next
    case 2
    then show ?thesis using Cons.IH [of "counter_incr seen i" t i] Cons.prems(1)
      by (simp add: positive_incr)
  qed
qed

lemma emitted_positive:
  assumes "no_consecutive_duplicates ts = Inr triples" and "tr \<in> set triples"
  shows "positive (snd (snd tr))"
proof -
  obtain t0 id0 rest where ts: "ts = (t0, id0) # rest"
    using assms(1) by (cases ts) (auto simp: no_consecutive_duplicates_def)
  then have "triples = scan t0 id0 (counter_incr [] id0) ts"
    using assms(1) by (simp add: no_consecutive_duplicates_def)
  with assms(2) show ?thesis
    using scan_positive [of "counter_incr [] id0" tr t0 id0 ts]
    by (simp add: positive_incr positive_Nil)
qed



lemma scan_sorted:
  "sorted (map fst ts) \<Longrightarrow> \<forall>x \<in> set ts. lt \<le> fst x \<Longrightarrow>
     sorted (map fst (scan lt lid seen ts)) \<and> (\<forall>y \<in> set (scan lt lid seen ts). lt \<le> fst y)"
proof (induction ts arbitrary: lt lid seen)
  case Nil
  then show ?case by simp
next
  case (Cons e ts)
  obtain t i where e: "e = (t, i)" by (cases e)
  have le: "lt \<le> t" using Cons.prems(2) e by simp
  have "sorted (map fst ts)" and "\<forall>x \<in> set ts. t \<le> fst x"
    using Cons.prems(1) e by auto
  then have IH: "sorted (map fst (scan t i (counter_incr seen i) ts))"
    "\<forall>y \<in> set (scan t i (counter_incr seen i) ts). t \<le> fst y"
    using Cons.IH [of t i "counter_incr seen i"] by blast+
  from IH(2) le have "\<forall>y \<in> set (scan t i (counter_incr seen i) ts). lt \<le> fst y"
    by auto
  with IH(1) show ?case using e by auto
qed

section \<open>Properties of the event list, the entries and the renderer\<close>

lemma sorted_map_fst_lex:
  fixes xs :: "('a::linorder \<times> 'b::linorder) list"
  shows "sorted xs \<Longrightarrow> sorted (map fst xs)"
  by (induction xs) (auto simp: less_eq_prod_def)


lemma make_entries_times:
  "make_entries nodes triples = Inr es \<Longrightarrow> map time es = map fst triples"
proof (induction triples arbitrary: es)
  case Nil
  then show ?case by simp
next
  case (Cons tr triples)
  then show ?case
    by (cases tr) (auto simp: make_entry_def split: sum.splits if_splits)
qed


lemma document_loop_no_assert:
  "\<forall>kv \<in> set xs. 0 < snd kv \<Longrightarrow> document_loop nodes xs \<noteq> Inl AssertionError"
  by (induction nodes xs rule: document_loop.induct) (auto split: sum.splits)


lemma documents_of_nodes_sorted:
  assumes "documents_of_nodes nodes = Inr es"
  shows "sorted (map time es)"
proof -
  obtain triples where tr: "no_consecutive_duplicates (times_of nodes) = Inr triples"
    and es: "make_entries nodes triples = Inr es"
    using assms by (auto simp: documents_of_nodes_def split: sum.splits)
  obtain t0 id0 rest where ts: "times_of nodes = (t0, id0) # rest"
    using tr by (cases "times_of nodes") (auto simp: no_consecutive_duplicates_def)
  have triples: "triples = scan t0 id0 (counter_incr [] id0) (times_of nodes)"
    using tr ts by (simp add: no_consecutive_duplicates_def)
  have "sorted (times_of nodes)" by (simp add: times_of_def)
  then have s: "sorted (map fst (times_of nodes))" by (rule sorted_map_fst_lex)
  then have "\<forall>x \<in> set (times_of nodes). t0 \<le> fst x"
    using ts by auto
  with s have "sorted (map fst triples)"
    unfolding triples using scan_sorted by blast
  then show ?thesis using make_entries_times [OF es] by simp
qed

section \<open>Runs and the scan\<close>

text \<open>The runs are what their name says: they partition the list, each is non-empty and
  of one node index, and neighbouring runs have different indices.\<close>

lemma runs_Cons_not_Nil: "runs (e # es) \<noteq> []"
  by (simp split: list.splits)

lemma concat_runs: "concat (runs es) = es"
  by (induction es) (auto split: list.splits)

lemma runs_nonempty: "r \<in> set (runs es) \<Longrightarrow> r \<noteq> []"
  by (induction es arbitrary: r) (auto split: list.splits if_splits)

lemma hd_hd_runs: "hd (hd (runs (e # es))) = e"
  by (simp split: list.splits)

lemma runs_same_index: "r \<in> set (runs es) \<Longrightarrow> x \<in> set r \<Longrightarrow> snd x = snd (hd r)"
  by (induction es arbitrary: r x) (auto split: list.splits if_splits)

lemma runs_adjacent_differ:
  "Suc j < length (runs es) \<Longrightarrow> snd (hd (runs es ! j)) \<noteq> snd (hd (runs es ! Suc j))"
proof (induction es arbitrary: j)
  case Nil
  then show ?case by simp
next
  case (Cons e es)
  show ?case
  proof (cases "runs es")
    case Nil
    then show ?thesis using Cons.prems by simp
  next
    case (Cons r rs)
    show ?thesis
    proof (cases "snd e = snd (hd r)")
      case True
      then have eq: "runs (e # es) = (e # r) # rs" using Cons by simp
      show ?thesis
      proof (cases j)
        case 0
        then show ?thesis
          using Cons.IH [of 0] Cons.prems eq Cons True by simp
      next
        case (Suc j')
        then show ?thesis
          using Cons.IH [of j] Cons.prems eq Cons by simp
      qed
    next
      case False
      then have eq: "runs (e # es) = [e] # r # rs" using Cons by simp
      show ?thesis
      proof (cases j)
        case 0
        then show ?thesis using eq False by simp
      next
        case (Suc j')
        then show ?thesis
          using Cons.IH [of j'] Cons.prems eq Cons by simp
      qed
    qed
  qed
qed

text \<open>A pending run followed by an event of another node is a run of its own.\<close>

lemma runs_append_other:
  "p \<noteq> [] \<Longrightarrow> \<forall>x \<in> set p. snd x = lid \<Longrightarrow> snd e \<noteq> lid \<Longrightarrow>
     runs (p @ e # es) = p # runs (e # es)"
proof (induction p)
  case Nil
  then show ?case by simp
next
  case (Cons a p)
  show ?case
  proof (cases p)
    case Nil
    then show ?thesis
      using Cons.prems hd_hd_runs [of e es] runs_Cons_not_Nil [of e es]
      by (cases "runs (e # es)") auto
  next
    case (Cons b q)
    then have "runs (p @ e # es) = p # runs (e # es)"
      using Cons.IH Cons.prems by simp
    then show ?thesis using Cons.prems Cons by simp
  qed
qed

lemma runs_single: "p \<noteq> [] \<Longrightarrow> \<forall>x \<in> set p. snd x = lid \<Longrightarrow> runs p = [p]"
proof (induction p)
  case Nil
  then show ?case by simp
next
  case (Cons a p)
  then show ?case by (cases p) auto
qed

text \<open>
  The loop invariant: \<open>p\<close> is the part of the current run already read, it ends with the
  event held in \<^verbatim>\<open>last_t, last_id\<close>, and the counter has counted all of it.
\<close>

lemma scan_runs:
  "p \<noteq> [] \<Longrightarrow> last p = (lt, lid) \<Longrightarrow> \<forall>x \<in> set p. snd x = lid \<Longrightarrow>
   length p \<le> counter_get seen lid \<Longrightarrow>
     list_all2 closes (scan lt lid seen ts) (runs (p @ ts))"
proof (induction ts arbitrary: p lt lid seen)
  case Nil
  then show ?case by (simp add: runs_single [of p lid] closes_def)
next
  case (Cons e ts)
  obtain t i where e: "e = (t, i)" by (cases e)
  show ?case
  proof (cases "i = lid")
    case True
    have "list_all2 closes (scan t i (counter_incr seen i) ts) (runs ((p @ [e]) @ ts))"
      using Cons.prems e True by (intro Cons.IH) (auto simp: counter_get_incr)
    then show ?thesis using e True by simp
  next
    case False
    have "list_all2 closes (scan t i (counter_incr seen i) ts) (runs ([e] @ ts))"
      using e by (intro Cons.IH) (auto simp: counter_get_incr)
    moreover have "runs (p @ e # ts) = p # runs (e # ts)"
      using Cons.prems False e by (intro runs_append_other [where lid = lid]) auto
    moreover have "closes (lt, lid, counter_incr seen i) p"
      using Cons.prems False by (simp add: closes_def counter_get_incr)
    ultimately show ?thesis using e False by simp
  qed
qed

section \<open>Properties of the flattening\<close>













section \<open>Concrete runs of the program\<close>

lemma float_of_digits_values:
  "float_of_digits ''0'' = Some 0" "float_of_digits ''1'' = Some 1"
  "float_of_digits ''2'' = Some 2" "float_of_digits ''3'' = Some 3"
  "float_of_digits ''abc'' = None"
  by (simp_all add: float_of_digits_def)

lemma parse_date_Some:
  "to_float s = Some f \<Longrightarrow> f \<noteq> 0 \<Longrightarrow> fromtimestamp f = Inr t \<Longrightarrow>
     parse_date to_float fromtimestamp (Some s) = Inr (Some t)"
  by (simp add: parse_date_def)

lemma parse_two_notes:
  assumes "to_float s1 = Some f1" "f1 \<noteq> 0" "fromtimestamp f1 = Inr t1"
    and "to_float s2 = Some f2" "f2 \<noteq> 0" "fromtimestamp f2 = Inr t2"
    and "to_float s3 = Some f3" "f3 \<noteq> 0" "fromtimestamp f3 = Inr t3"
  shows "parse_nodes to_float fromtimestamp now
           (cherrytree [note_element ''A'' s1 s1 ''hello'', note_element ''B'' s2 s3 ''world''])
         = Inr [flat ''A'' t1 t1 ''hello'', flat ''B'' t2 t3 ''world'']"
  using assms
  by (simp add: parse_nodes_def cherrytree_def note_element_def flat_def parse_date_Some
      or_default_def make_header_def rstrip_def isspace_def)

lemma times_two_notes:
  assumes "t1 < t2" "t2 < t3"
  shows "times_of [flat ''A'' t1 t1 ''hello'', flat ''B'' t2 t3 ''world'']
         = [(t1, 0), (t1, 0), (t2, 1), (t3, 1)]"
proof -
  have "sorted [(t1, 0::nat), (t1, 0), (t2, 1), (t3, 1)]"
    using assms by (auto simp: less_eq_prod_def)
  then have "sort [(t1, 0::nat), (t1, 0), (t2, 1), (t3, 1)] = [(t1, 0), (t1, 0), (t2, 1), (t3, 1)]"
    by (rule sort_key_id_if_sorted [where f = "\<lambda>x. x", simplified])
  then show ?thesis
    by (simp add: times_of_def flat_def)
qed

lemma parse_hello_world:
  "parse_nodes float_of_digits Inr (9::int)
     (cherrytree [note_element ''A'' ''1'' ''1'' ''hello'', note_element ''B'' ''2'' ''3'' ''world''])
   = Inr [flat ''A'' 1 1 ''hello'', flat ''B'' 2 3 ''world'']"
  by (simp add: flatten_defs)

lemma triples_hello_world:
  "no_consecutive_duplicates (times_of [flat ''A'' (1::int) 1 ''hello'', flat ''B'' 2 3 ''world''])
   = Inr [(1, 0, [(0, 3), (1, 1)]), (3, 1, [(0, 3), (1, 2)])]"
  by (simp add: timeline_defs flat_def)

lemma runs_hello_world:
  "runs (times_of [flat ''A'' (1::int) 1 ''hello'', flat ''B'' 2 3 ''world''])
   = [[(1, 0), (1, 0)], [(2, 1), (3, 1)]]"
  by (simp add: times_of_def flat_def)

lemma entries_hello_world:
  "get_documents_by_time float_of_digits Inr (9::int)
     (cherrytree [note_element ''A'' ''1'' ''1'' ''hello'', note_element ''B'' ''2'' ''3'' ''world''])
   = Inr [\<lparr>time = 1, node = flat ''A'' 1 1 ''hello'', description = ''section: '',
            counts = [(0, 3), (1, 1)], rendered = Inr ''* A\<newline>* B\<newline>''\<rparr>,
          \<lparr>time = 3, node = flat ''B'' 2 3 ''world'', description = [],
            counts = [(0, 3), (1, 2)], rendered = Inr ''* A\<newline>* B\<newline>world\<newline>''\<rparr>]"
  by (simp add: get_documents_by_time_def parse_hello_world) (simp add: timeline_defs flat_def)

lemma entries_interleaved:
  "get_documents_by_time float_of_digits Inr (9::int)
     (cherrytree [note_element ''A'' ''1'' ''3'' ''hello'', note_element ''B'' ''2'' ''4'' ''world''])
   = Inr [\<lparr>time = 1, node = flat ''A'' 1 3 ''hello'', description = [],
            counts = [(0, 2), (1, 1)], rendered = Inr ''* A\<newline>hello\<newline>* B\<newline>''\<rparr>,
          \<lparr>time = 2, node = flat ''B'' 2 4 ''world'', description = ''section: '',
            counts = [(0, 3), (1, 1)], rendered = Inr ''* A\<newline>* B\<newline>''\<rparr>,
          \<lparr>time = 3, node = flat ''A'' 1 3 ''hello'', description = ''section: '',
            counts = [(0, 3), (1, 2)], rendered = Inr ''* A\<newline>* B\<newline>world\<newline>''\<rparr>,
          \<lparr>time = 4, node = flat ''B'' 2 4 ''world'', description = [],
            counts = [(0, 3), (1, 2)], rendered = Inr ''* A\<newline>* B\<newline>world\<newline>''\<rparr>]"
  by (simp add: get_documents_by_time_def flatten_defs) (simp add: timeline_defs)

lemma entries_revisited:
  "get_documents_by_time float_of_digits Inr (9::int)
     (cherrytree [note_element ''A'' ''1'' ''3'' ''hello'', note_element ''B'' ''2'' ''2'' ''world''])
   = Inr [\<lparr>time = 1, node = flat ''A'' 1 3 ''hello'', description = [],
            counts = [(0, 2), (1, 1)], rendered = Inr ''* A\<newline>hello\<newline>* B\<newline>''\<rparr>,
          \<lparr>time = 2, node = flat ''B'' 2 2 ''world'', description = [],
            counts = [(0, 3), (1, 2)], rendered = Inr ''* A\<newline>* B\<newline>world\<newline>''\<rparr>,
          \<lparr>time = 3, node = flat ''A'' 1 3 ''hello'', description = ''section: '',
            counts = [(0, 3), (1, 2)], rendered = Inr ''* A\<newline>* B\<newline>world\<newline>''\<rparr>]"
  by (simp add: get_documents_by_time_def flatten_defs) (simp add: timeline_defs)


section \<open>The claims\<close>

subsection \<open>C1: the two-note example\<close>

text \<open>
  Claim C1 says that a root with children A (created and modified at \<open>t1\<close>, text hello) and
  B (created at \<open>t2\<close>, modified at \<open>t3\<close>, text world) gives three entries. At the times
  1, 2 and 3 the program gives two: B's two events are neighbours in the sorted list and
  form one run, so there is no entry at time 2. (The first event is counted twice, which
  brings A to the count 3: A's entry is labelled as a section and its text is never
  rendered.)
\<close>

theorem hello_world_actual_entries:
  "get_documents_by_time float_of_digits Inr (9::int)
     (cherrytree [note_element ''A'' ''1'' ''1'' ''hello'', note_element ''B'' ''2'' ''3'' ''world''])
   = Inr [\<lparr>time = 1, node = flat ''A'' 1 1 ''hello'', description = ''section: '',
            counts = [(0, 3), (1, 1)], rendered = Inr ''* A\<newline>* B\<newline>''\<rparr>,
          \<lparr>time = 3, node = flat ''B'' 2 3 ''world'', description = [],
            counts = [(0, 3), (1, 2)], rendered = Inr ''* A\<newline>* B\<newline>world\<newline>''\<rparr>]"
  by (rule entries_hello_world)

text \<open>
  Claim C1, amended: for that tree with \<open>t1 < t2 < t3\<close>, \<^verbatim>\<open>get_documents_by_time\<close> yields
  exactly two entries, one for each run of same-node events. The first has time \<open>t1\<close> and
  node A, and its document starts with A's header. The second has time \<open>t3\<close>, node B and
  the empty description, and its document starts with A's header and ends with B's header
  and B's text.
\<close>

theorem hello_world_two_entries:
  assumes "to_float s1 = Some f1" "f1 \<noteq> 0" "fromtimestamp f1 = Inr t1"
    and "to_float s2 = Some f2" "f2 \<noteq> 0" "fromtimestamp f2 = Inr t2"
    and "to_float s3 = Some f3" "f3 \<noteq> 0" "fromtimestamp f3 = Inr t3"
    and "t1 < t2" "t2 < t3"
  shows "\<exists>e1 e2 d1 d2.
           get_documents_by_time to_float fromtimestamp now
             (cherrytree [note_element ''A'' s1 s1 ''hello'', note_element ''B'' s2 s3 ''world''])
           = Inr [e1, e2]
           \<and> time e1 = t1 \<and> node e1 = flat ''A'' t1 t1 ''hello''
           \<and> rendered e1 = Inr (''* A\<newline>'' @ d1)
           \<and> time e2 = t3 \<and> node e2 = flat ''B'' t2 t3 ''world'' \<and> description e2 = []
           \<and> rendered e2 = Inr (''* A\<newline>'' @ d2 @ ''* B\<newline>world\<newline>'')"
proof -
  have p: "parse_nodes to_float fromtimestamp now
           (cherrytree [note_element ''A'' s1 s1 ''hello'', note_element ''B'' s2 s3 ''world''])
         = Inr [flat ''A'' t1 t1 ''hello'', flat ''B'' t2 t3 ''world'']"
    using assms(1-9) by (rule parse_two_notes)
  have t: "times_of [flat ''A'' t1 t1 ''hello'', flat ''B'' t2 t3 ''world'']
         = [(t1, 0), (t1, 0), (t2, 1), (t3, 1)]"
    using assms(10,11) by (rule times_two_notes)
  have "get_documents_by_time to_float fromtimestamp now
             (cherrytree [note_element ''A'' s1 s1 ''hello'', note_element ''B'' s2 s3 ''world''])
        = Inr [\<lparr>time = t1, node = flat ''A'' t1 t1 ''hello'', description = ''section: '',
                 counts = [(0, 3), (1, 1)], rendered = Inr (''* A\<newline>'' @ ''* B\<newline>'')\<rparr>,
               \<lparr>time = t3, node = flat ''B'' t2 t3 ''world'', description = [],
                 counts = [(0, 3), (1, 2)],
                 rendered = Inr (''* A\<newline>'' @ [] @ ''* B\<newline>world\<newline>'')\<rparr>]"
    by (simp add: get_documents_by_time_def p documents_of_nodes_def t)
       (simp add: no_consecutive_duplicates_def counter_incr_def counter_get_def make_entry_def
          document_def join_def flat_def)
  then show ?thesis
    by (metis entry.select_convs(1,2,3,5))
qed

text \<open>The amended C1 at the times 1, 2 and 3.\<close>

theorem hello_world_two_entries_witness:
  "float_of_digits ''1'' = Some 1 \<and> float_of_digits ''2'' = Some 2
   \<and> float_of_digits ''3'' = Some 3 \<and> (1::int) < 2 \<and> (2::int) < 3
   \<and> (\<exists>e1 e2 d1 d2.
     get_documents_by_time float_of_digits Inr (9::int)
       (cherrytree [note_element ''A'' ''1'' ''1'' ''hello'', note_element ''B'' ''2'' ''3'' ''world''])
     = Inr [e1, e2]
     \<and> time e1 = 1 \<and> node e1 = flat ''A'' 1 1 ''hello''
     \<and> rendered e1 = Inr (''* A\<newline>'' @ d1)
     \<and> time e2 = 3 \<and> node e2 = flat ''B'' 2 3 ''world'' \<and> description e2 = []
     \<and> rendered e2 = Inr (''* A\<newline>'' @ d2 @ ''* B\<newline>world\<newline>''))"
proof -
  note f = float_of_digits_values(2-4)
  show ?thesis
    using hello_world_two_entries [where to_float = float_of_digits and fromtimestamp = Inr
        and ?s1.0 = "''1''" and ?s2.0 = "''2''" and ?s3.0 = "''3''"
        and ?f1.0 = 1 and ?f2.0 = 2 and ?f3.0 = 3
        and ?t1.0 = "1::int" and ?t2.0 = 2 and ?t3.0 = 3 and now = 9,
        OF f(1) _ _ f(2) _ _ f(3)] f
    by simp
qed

subsection \<open>C2: a body text, once rendered, stays\<close>

text \<open>
  Claim C2 says that a node's text, once in a rendered document, is in every later one. The
  program breaks it for the node of the first event, whose count reaches 3 while the
  renderer shows the text at the count 2 only. Here A is created at 1 and modified at 3, B
  created and modified at 2: A's text is in the first document and in no later one.
\<close>

theorem body_text_lost_at_third_count:
  "get_documents_by_time float_of_digits Inr (9::int)
     (cherrytree [note_element ''A'' ''1'' ''3'' ''hello'', note_element ''B'' ''2'' ''2'' ''world''])
   = Inr [\<lparr>time = 1, node = flat ''A'' 1 3 ''hello'', description = [],
            counts = [(0, 2), (1, 1)], rendered = Inr ''* A\<newline>hello\<newline>* B\<newline>''\<rparr>,
          \<lparr>time = 2, node = flat ''B'' 2 2 ''world'', description = [],
            counts = [(0, 3), (1, 2)], rendered = Inr ''* A\<newline>* B\<newline>world\<newline>''\<rparr>,
          \<lparr>time = 3, node = flat ''A'' 1 3 ''hello'', description = ''section: '',
            counts = [(0, 3), (1, 2)], rendered = Inr ''* A\<newline>* B\<newline>world\<newline>''\<rparr>]"
  by (rule entries_revisited)

subsection \<open>C3: what a triple's counter has counted\<close>

text \<open>
  Claim C3 says that the counter of an emitted triple counts the events up to the end of
  the triple's run and no later one. In the program the counter is incremented for the
  event that ends the run before the triple is yielded, and the first event is counted
  twice. Here the events are A at 1, B at 2, A at 3, B at 4: the triple for the run of the
  single event (1, A) counts A twice and already counts B's event of time 2.
\<close>

theorem first_triple_counts_next_event:
  "times_of [flat ''A'' (1::int) 3 ''hello'', flat ''B'' 2 4 ''world'']
     = [(1, 0), (2, 1), (3, 0), (4, 1)]
   \<and> no_consecutive_duplicates (times_of [flat ''A'' (1::int) 3 ''hello'', flat ''B'' 2 4 ''world''])
     = Inr [(1, 0, [(0, 2), (1, 1)]), (2, 1, [(0, 3), (1, 1)]),
            (3, 0, [(0, 3), (1, 2)]), (4, 1, [(0, 3), (1, 2)])]"
  by (simp add: timeline_defs flat_def)

subsection \<open>C4: the time a run's triple carries\<close>

text \<open>
  Claim C4 says that the triple of a run carries the time of the run's first event. The
  program moves \<^verbatim>\<open>last_t\<close> at every event, so the triple carries the time of the last
  one: the run of B's events (2, B), (3, B) is emitted with the time 3.
\<close>

theorem run_emitted_with_last_time:
  "runs (times_of [flat ''A'' (1::int) 1 ''hello'', flat ''B'' 2 3 ''world''])
     = [[(1, 0), (1, 0)], [(2, 1), (3, 1)]]
   \<and> no_consecutive_duplicates (times_of [flat ''A'' (1::int) 1 ''hello'', flat ''B'' 2 3 ''world''])
     = Inr [(1, 0, [(0, 3), (1, 1)]), (3, 1, [(0, 3), (1, 2)])]"
  using runs_hello_world triples_hello_world by (rule conjI)

text \<open>
  Claim C4, amended: the emitted triples correspond one to one, in order, to the maximal
  runs of consecutive events with the same node index, and the triple of a run carries the
  time and the node index of the last event of the run, while its counter has counted, for
  that node, at least all events of the run.
\<close>

theorem emitted_triples_close_runs:
  assumes "no_consecutive_duplicates ts = Inr triples"
  shows "list_all2 closes triples (runs ts)"
proof -
  obtain t0 id0 rest where ts: "ts = (t0, id0) # rest"
    using assms by (cases ts) (auto simp: no_consecutive_duplicates_def)
  have "triples = scan t0 id0 (counter_incr (counter_incr [] id0) id0) rest"
    using assms ts by (simp add: no_consecutive_duplicates_def)
  moreover have "list_all2 closes (scan t0 id0 (counter_incr (counter_incr [] id0) id0) rest)
                   (runs ([(t0, id0)] @ rest))"
    by (intro scan_runs) (auto simp: counter_get_incr)
  ultimately show ?thesis
    using ts by simp
qed

text \<open>The amended C4 on the events (1, A), (1, A), (2, B), (3, B).\<close>

theorem emitted_triples_close_runs_witness:
  "no_consecutive_duplicates [(1::int, 0), (1, 0), (2, 1), (3, 1)]
     = Inr [(1, 0, [(0, 3), (1, 1)]), (3, 1, [(0, 3), (1, 2)])]
   \<and> list_all2 closes [(1::int, 0, [(0, 3), (1, 1)]), (3, 1, [(0, 3), (1, 2)])]
        (runs [(1, 0), (1, 0), (2, 1), (3, 1)])"
proof -
  have a: "no_consecutive_duplicates [(1::int, 0), (1, 0), (2, 1), (3, 1)]
     = Inr [(1, 0, [(0, 3), (1, 1)]), (3, 1, [(0, 3), (1, 2)])]"
    by (simp add: no_consecutive_duplicates_def counter_incr_def counter_get_def)
  show ?thesis
    using emitted_triples_close_runs [OF a] a by simp
qed

subsection \<open>C5: the counts stay below three\<close>

text \<open>
  Claim C5 says that every count is 0, 1 or 2 and that the triggering node's count in an
  emitted triple is 1 or 2. The program reads the first event once at line 147 and then
  loops over the whole list again, so the node of the first event is counted three times.
  With a single node created and modified at time 1 the only entry carries the count 3, is
  labelled as a section and is rendered without the node's text.
\<close>

theorem single_note_counted_three_times:
  "get_documents_by_time float_of_digits Inr (9::int)
     (cherrytree [note_element ''A'' ''1'' ''1'' ''hello''])
   = Inr [\<lparr>time = 1, node = flat ''A'' 1 1 ''hello'', description = ''section: '',
            counts = [(0, 3)], rendered = Inr ''* A\<newline>''\<rparr>]"
  by (simp add: get_documents_by_time_def flatten_defs) (simp add: timeline_defs)

subsection \<open>C6: timestamps that are missing or no numbers\<close>




subsection \<open>C7: the entries are in timeline order\<close>

text \<open>
  Claim C7: for every input tree and every two consecutive entries of the emitted sequence,
  the time of the first is at most the time of the second.
\<close>

theorem entries_in_time_order:
  assumes "get_documents_by_time to_float fromtimestamp now root = Inr es"
    and "Suc i < length es"
  shows "time (es ! i) \<le> time (es ! Suc i)"
proof -
  obtain nodes where "documents_of_nodes nodes = Inr es"
    using assms(1) by (auto simp: get_documents_by_time_def split: sum.splits)
  then have "sorted (map time es)" by (rule documents_of_nodes_sorted)
  then have "map time es ! i \<le> map time es ! Suc i"
    using assms(2) by (intro sorted_nth_mono) simp_all
  then show ?thesis using assms(2) by simp
qed

text \<open>C7 on the four entries of the tree with A at 1 and 3 and B at 2 and 4.\<close>

theorem entries_in_time_order_witness:
  "get_documents_by_time float_of_digits Inr (9::int)
     (cherrytree [note_element ''A'' ''1'' ''3'' ''hello'', note_element ''B'' ''2'' ''4'' ''world''])
   = Inr [\<lparr>time = 1, node = flat ''A'' 1 3 ''hello'', description = [],
            counts = [(0, 2), (1, 1)], rendered = Inr ''* A\<newline>hello\<newline>* B\<newline>''\<rparr>,
          \<lparr>time = 2, node = flat ''B'' 2 4 ''world'', description = ''section: '',
            counts = [(0, 3), (1, 1)], rendered = Inr ''* A\<newline>* B\<newline>''\<rparr>,
          \<lparr>time = 3, node = flat ''A'' 1 3 ''hello'', description = ''section: '',
            counts = [(0, 3), (1, 2)], rendered = Inr ''* A\<newline>* B\<newline>world\<newline>''\<rparr>,
          \<lparr>time = 4, node = flat ''B'' 2 4 ''world'', description = [],
            counts = [(0, 3), (1, 2)], rendered = Inr ''* A\<newline>* B\<newline>world\<newline>''\<rparr>]
   \<and> Suc 1 < length [1, 2, 3, 4 :: int] \<and> (2::int) \<le> 3"
  using entries_in_time_order [OF entries_interleaved, of 1] entries_interleaved by simp

subsection \<open>C8: a root without children\<close>

text \<open>
  Claim C8: for a root without children the list of nodes and the list of events are
  empty; \<^verbatim>\<open>next\<close> on the empty iterator raises StopIteration inside the generator, which
  reaches the caller as RuntimeError, so no empty sequence of entries is produced.
\<close>

theorem empty_tree_raises:
  "get_documents_by_time to_float fromtimestamp now (Element tg at tx []) = Inl RuntimeError"
  by (simp add: get_documents_by_time_def parse_nodes_def documents_of_nodes_def
      times_of_def no_consecutive_duplicates_def)

subsection \<open>C9: the assertion of the renderer\<close>

text \<open>
  Claim C9: every counter the scan emits stores nonzero counts only, so rendering it never
  fails the assertion \<^verbatim>\<open>assert times_seen\<close>.
\<close>

theorem scan_counts_positive:
  assumes "no_consecutive_duplicates ts = Inr triples"
    and "(t, node_id, seen) \<in> set triples"
  shows "(\<forall>kv \<in> set seen. 0 < snd kv) \<and> document nodes seen \<noteq> Inl AssertionError"
proof -
  have "positive (snd (snd (t, node_id, seen)))"
    using assms by (rule emitted_positive)
  then have pos: "\<forall>kv \<in> set seen. 0 < snd kv"
    by (simp add: positive_def)
  then have "document_loop nodes (sort seen) \<noteq> Inl AssertionError"
    by (intro document_loop_no_assert) simp
  with pos show ?thesis by (simp add: document_def)
qed

text \<open>C9 on the first triple of the events (1, A), (1, A), (2, B), (3, B).\<close>

theorem scan_counts_positive_witness:
  "no_consecutive_duplicates (times_of [flat ''A'' (1::int) 1 ''hello'', flat ''B'' 2 3 ''world''])
     = Inr [(1, 0, [(0, 3), (1, 1)]), (3, 1, [(0, 3), (1, 2)])]
   \<and> (1::int, 0::nat, [(0::nat, 3::nat), (1, 1)]) \<in> set [(1, 0, [(0, 3), (1, 1)]), (3, 1, [(0, 3), (1, 2)])]
   \<and> positive [(0, 3), (1, 1)]
   \<and> document [flat ''A'' (1::int) 1 ''hello'', flat ''B'' 2 3 ''world''] [(0, 3), (1, 1)]
       \<noteq> Inl AssertionError"
proof -
  have m: "(1::int, 0::nat, [(0::nat, 3::nat), (1, 1)])
             \<in> set [(1, 0, [(0, 3), (1, 1)]), (3, 1, [(0, 3), (1, 2)])]"
    by simp
  show ?thesis
    using scan_counts_positive [OF triples_hello_world m,
        of "[flat ''A'' (1::int) 1 ''hello'', flat ''B'' 2 3 ''world'']"]
      triples_hello_world
    by (simp add: positive_def)
qed

subsection \<open>C10: the last document shows every node\<close>



end
